theory Spec2Isabelle
  imports Complex_Main
begin

section \<open>Errors and array primitives\<close>

text \<open>
  The notebook \<^verbatim>\<open>legacy_notebooks/run_toy_2d_baselines.ipynb\<close> is Python over numpy,
  scikit-learn and plotly. Every exception the modelled code can raise is a value of
  \<open>error\<close>; a function that can raise returns \<open>error + 'a\<close> with \<open>Inl\<close> for the exception.
  Floating-point scalars are idealised as \<open>real\<close> where a property does not depend on the
  arithmetic (shapes, lengths, the order of the grid, exact small integers); the coordinate
  sequences are modelled a second time in binary64, with rounding, overflow and NaN.
\<close>

datatype error = IndexError | ValueError | UnboundLocalError | Raised string

type_synonym point = "real \<times> real"

text \<open>
  Sequencing of statements that can raise: the first exception ends the computation and
  is the result. \<open>Raised name\<close> stands for any exception of a library call that the notebook
  does not construct itself.
\<close>

definition and_then :: "error + 'a \<Rightarrow> ('a \<Rightarrow> error + 'b) \<Rightarrow> error + 'b" where
  "and_then m f = (case m of Inl e \<Rightarrow> Inl e | Inr v \<Rightarrow> f v)"

text \<open>
  A two-dimensional numpy array of scalars: its shape (rows, columns) and its elements in
  C (row-major) order, which is the order \<^verbatim>\<open>flatten()\<close> and \<^verbatim>\<open>reshape\<close> use.
\<close>

record ndarray2 =
  shape :: "nat \<times> nat"
  flat :: "real list"

text \<open>Python's \<^verbatim>\<open>xs[i]\<close> for a non-negative literal index.\<close>

definition getitem :: "'a list \<Rightarrow> nat \<Rightarrow> error + 'a" where
  "getitem xs i = (if i < length xs then Inr (xs ! i) else Inl IndexError)"

text \<open>\<^verbatim>\<open>a[j, i]\<close> on a two-dimensional array, for non-negative indices.\<close>

definition item2 :: "ndarray2 \<Rightarrow> nat \<Rightarrow> nat \<Rightarrow> error + real" where
  "item2 a j i =
     (if j < fst (shape a) \<and> i < snd (shape a)
      then getitem (flat a) (j * snd (shape a) + i)
      else Inl IndexError)"

text \<open>
  \<^verbatim>\<open>np.linspace(start, stop, num)\<close> with the default \<^verbatim>\<open>endpoint=True\<close>, following numpy's
  implementation: a negative \<^verbatim>\<open>num\<close> raises ValueError; otherwise the samples are
  \<^verbatim>\<open>arange(0, num) * step + start\<close> with \<^verbatim>\<open>step = (stop - start) / (num - 1)\<close>, and for
  \<^verbatim>\<open>num > 1\<close> the last sample is overwritten by \<^verbatim>\<open>stop\<close>. This is the computation in
  exact real arithmetic; \<open>linspace64\<close> below is the same computation in binary64.
\<close>

definition linspace :: "real \<Rightarrow> real \<Rightarrow> int \<Rightarrow> error + real list" where
  "linspace start stop num =
     (if num < 0 then Inl ValueError
      else
        let dv = num - 1;
            delta = stop - start;
            y = map real [0..<nat num];
            y = (if 0 < dv then
                   (let step = delta / real_of_int dv
                    in if step = 0 then map (\<lambda>v. v / real_of_int dv * delta) y
                       else map (\<lambda>v. v * step) y)
                 else map (\<lambda>v. v * delta) y);
            y = map (\<lambda>v. v + start) y
        in Inr (if 1 < num then y[nat num - 1 := stop] else y))"

text \<open>
  \<^verbatim>\<open>np.meshgrid(x, y)\<close> with the default \<^verbatim>\<open>indexing='xy'\<close>: both results have shape
  \<^verbatim>\<open>(len(y), len(x))\<close>; row \<open>j\<close> of the first is \<open>x\<close>, row \<open>j\<close> of the second is
  \<open>y[j]\<close> repeated.
\<close>

definition meshgrid :: "real list \<Rightarrow> real list \<Rightarrow> ndarray2 \<times> ndarray2" where
  "meshgrid x y =
     (\<lparr>shape = (length y, length x), flat = concat (replicate (length y) x)\<rparr>,
      \<lparr>shape = (length y, length x), flat = concat (map (\<lambda>v. replicate (length x) v) y)\<rparr>)"

definition flatten :: "ndarray2 \<Rightarrow> real list" where
  "flatten a = flat a"

text \<open>
  \<^verbatim>\<open>np.stack([u, v], axis=-1)\<close> on two one-dimensional arrays: an array of shape
  \<^verbatim>\<open>(n, 2)\<close> whose row \<open>k\<close> is \<open>(u[k], v[k])\<close>; arrays of different shapes raise ValueError.
\<close>

definition stack_last :: "real list \<Rightarrow> real list \<Rightarrow> error + point list" where
  "stack_last u v = (if length u = length v then Inr (zip u v) else Inl ValueError)"

text \<open>\<^verbatim>\<open>z.reshape(shp)\<close> of a one-dimensional array: the sizes must agree.\<close>

definition reshape :: "real list \<Rightarrow> nat \<times> nat \<Rightarrow> error + ndarray2" where
  "reshape z shp =
     (if length z = fst shp * snd shp then Inr \<lparr>shape = shp, flat = z\<rparr>
      else Inl ValueError)"

section \<open>Binary64 arithmetic\<close>

text \<open>
  numpy computes \<^verbatim>\<open>linspace\<close> in IEEE 754 binary64. Where a property depends on rounding,
  overflow or NaN, the scalars are values of \<open>f64\<close>: a finite number, one of the two
  infinities, or NaN. The sign of zero is not modelled (zero is \<open>+0\<close>): the operations below
  compare and combine values and the code never divides by zero, so no result depends on it.
\<close>

datatype f64 = F real | PInf | NInf | NaN

text \<open>
  Rounding an integer-scaled value to the nearest integer, ties to the even one.
\<close>

definition round_half_even :: "real \<Rightarrow> int" where
  "round_half_even x =
     (let f = \<lfloor>x\<rfloor>; d = x - of_int f
      in if d < 1 / 2 then f else if 1 / 2 < d then f + 1 else if even f then f else f + 1)"

text \<open>
  The exponent of the spacing of binary64 numbers around \<open>x\<close>: the largest \<open>e\<close> from
  \<open>- 1074\<close> up to \<open>k - 1074\<close> with \<open>2 ^ (e + 52) \<le> \<bar>x\<bar>\<close>, and \<open>- 1074\<close> (the subnormal spacing)
  when there is none. The largest spacing of binary64 is \<open>2 ^ 971\<close>, for \<open>k = 2045\<close>.
\<close>

fun quantum_exp :: "nat \<Rightarrow> real \<Rightarrow> int" where
  "quantum_exp 0 x = - 1074"
| "quantum_exp (Suc k) x =
     (if 2 powi (int k - 1021) \<le> \<bar>x\<bar> then int k - 1073 else quantum_exp k x)"

text \<open>
  Round to nearest, ties to even: the real number \<open>x\<close> as a binary64 value. A result of
  magnitude \<open>2 ^ 1024\<close> or more overflows to the infinity of the sign of \<open>x\<close>.
\<close>

definition rnd :: "real \<Rightarrow> f64" where
  "rnd x =
     (let q = 2 powi (quantum_exp 2045 x);
          y = of_int (round_half_even (x / q)) * q
      in if 2 ^ 1024 \<le> \<bar>y\<bar> then (if 0 < x then PInf else NInf) else F y)"

text \<open>
  Negation, addition, subtraction, multiplication and division of binary64 values:
  the exact result rounded, with the IEEE rules for infinities and NaN.
\<close>

fun fneg :: "f64 \<Rightarrow> f64" where
  "fneg (F x) = F (- x)"
| "fneg PInf = NInf"
| "fneg NInf = PInf"
| "fneg NaN = NaN"

fun fadd :: "f64 \<Rightarrow> f64 \<Rightarrow> f64" where
  "fadd NaN v = NaN"
| "fadd u NaN = NaN"
| "fadd PInf NInf = NaN"
| "fadd NInf PInf = NaN"
| "fadd PInf v = PInf"
| "fadd u PInf = PInf"
| "fadd NInf v = NInf"
| "fadd u NInf = NInf"
| "fadd (F x) (F y) = rnd (x + y)"

definition fsub :: "f64 \<Rightarrow> f64 \<Rightarrow> f64" where
  "fsub u v = fadd u (fneg v)"

definition inf_of_sign :: "real \<Rightarrow> f64" where
  "inf_of_sign s = (if s = 0 then NaN else if 0 < s then PInf else NInf)"

fun fmul :: "f64 \<Rightarrow> f64 \<Rightarrow> f64" where
  "fmul NaN v = NaN"
| "fmul u NaN = NaN"
| "fmul (F x) (F y) = rnd (x * y)"
| "fmul (F x) PInf = inf_of_sign x"
| "fmul (F x) NInf = inf_of_sign (- x)"
| "fmul PInf (F y) = inf_of_sign y"
| "fmul NInf (F y) = inf_of_sign (- y)"
| "fmul PInf PInf = PInf"
| "fmul NInf NInf = PInf"
| "fmul PInf NInf = NInf"
| "fmul NInf PInf = NInf"

fun fdiv :: "f64 \<Rightarrow> f64 \<Rightarrow> f64" where
  "fdiv NaN v = NaN"
| "fdiv u NaN = NaN"
| "fdiv (F x) (F y) = (if y = 0 then inf_of_sign x else rnd (x / y))"
| "fdiv (F x) PInf = F 0"
| "fdiv (F x) NInf = F 0"
| "fdiv PInf (F y) = (if 0 \<le> y then PInf else NInf)"
| "fdiv NInf (F y) = (if 0 \<le> y then NInf else PInf)"
| "fdiv PInf PInf = NaN"
| "fdiv PInf NInf = NaN"
| "fdiv NInf PInf = NaN"
| "fdiv NInf NInf = NaN"

text \<open>
  The comparisons \<^verbatim>\<open><\<close> and \<^verbatim>\<open><=\<close> of binary64 values: every comparison with NaN is false.
\<close>

fun f64_less :: "f64 \<Rightarrow> f64 \<Rightarrow> bool" where
  "f64_less NaN v = False"
| "f64_less u NaN = False"
| "f64_less (F x) (F y) = (x < y)"
| "f64_less (F x) PInf = True"
| "f64_less (F x) NInf = False"
| "f64_less PInf v = False"
| "f64_less NInf NInf = False"
| "f64_less NInf v = True"

definition f64_le :: "f64 \<Rightarrow> f64 \<Rightarrow> bool" where
  "f64_le u v = (f64_less u v \<or> (u = v \<and> u \<noteq> NaN))"

text \<open>
  \<^verbatim>\<open>np.linspace(start, stop, num)\<close> in binary64, statement by statement as in numpy: the
  arguments are converted to binary64 (\<^verbatim>\<open>asanyarray(start) * 1.0\<close>), \<^verbatim>\<open>delta = stop - start\<close>,
  the samples are \<^verbatim>\<open>arange(0, num)\<close> multiplied by \<^verbatim>\<open>step = delta / div\<close> (or, when the step
  is zero, divided by \<^verbatim>\<open>div\<close> and multiplied by \<^verbatim>\<open>delta\<close>), \<^verbatim>\<open>start\<close> is added, and for
  \<^verbatim>\<open>num > 1\<close> the last sample is overwritten by \<^verbatim>\<open>stop\<close>. Every operation rounds.
\<close>

definition linspace64 :: "real \<Rightarrow> real \<Rightarrow> int \<Rightarrow> error + f64 list" where
  "linspace64 start stop num =
     (if num < 0 then Inl ValueError
      else
        let dv = num - 1;
            start = rnd start;
            stop = rnd stop;
            delta = fsub stop start;
            y = map (\<lambda>i. rnd (real i)) [0..<nat num];
            y = (if 0 < dv then
                   (let step = fdiv delta (rnd (real_of_int dv))
                    in if step = F 0 then map (\<lambda>v. fmul (fdiv v (rnd (real_of_int dv))) delta) y
                       else map (\<lambda>v. fmul v step) y)
                 else map (\<lambda>v. fmul v delta) y);
            y = map (\<lambda>v. fadd v start) y
        in Inr (if 1 < num then y[nat num - 1 := stop] else y))"

text \<open>
  One sample of \<open>linspace64\<close> before the last one is overwritten, in closed form.
\<close>

definition sample64 :: "f64 \<Rightarrow> f64 \<Rightarrow> f64 \<Rightarrow> f64 \<Rightarrow> f64" where
  "sample64 start delta dv v =
     fadd (if fdiv delta dv = F 0 then fmul (fdiv v dv) delta else fmul v (fdiv delta dv)) start"

section \<open>The model factory and the boundary visualizer\<close>

text \<open>
  The two scikit-learn estimators the notebook constructs, with the keyword arguments it
  passes: \<^verbatim>\<open>IsolationForest(contamination=...)\<close> and
  \<^verbatim>\<open>OneClassSVM(nu=..., kernel=..., gamma=...)\<close>.
\<close>

datatype estimator =
    IsolationForest (contamination: real)
  | OneClassSVM (nu: real) (kernel: string) (gamma: string)

text \<open>
  A fitted classifier as \<^verbatim>\<open>get_sk_contour\<close> sees it: the estimator it was fitted from and
  its \<^verbatim>\<open>decision_function\<close> method, which takes an array of points of shape \<open>(n, 2)\<close> and
  returns \<open>n\<close> scores or raises.
\<close>

record classifier =
  hyper :: estimator
  decision_function :: "point list \<Rightarrow> error + real list"

definition get_sk_contour ::
  "classifier \<Rightarrow> real list \<Rightarrow> int \<Rightarrow> error + (ndarray2 \<times> real list \<times> real list \<times> point list)" where
  "get_sk_contour model domain resolution =
     and_then (getitem domain 0) (\<lambda>xmin.
     and_then (getitem domain 1) (\<lambda>xmax.
     and_then (getitem domain 0) (\<lambda>ymin.
     and_then (getitem domain 1) (\<lambda>ymax.
     and_then (linspace xmin xmax resolution) (\<lambda>x_coords.
     and_then (linspace ymin ymax resolution) (\<lambda>y_coords.
     let (x_grid, y_grid) = meshgrid x_coords y_coords in
     and_then (stack_last (flatten x_grid) (flatten y_grid)) (\<lambda>grid.
     and_then (decision_function model grid) (\<lambda>z_flat.
     and_then (reshape z_flat (shape x_grid)) (\<lambda>z_grid.
     Inr (z_grid, x_coords, y_coords, grid))))))))))"

text \<open>
  Lines 32 to 35 of \<^verbatim>\<open>get_sk_contour\<close> in binary64: the two coordinate sequences, which the
  function returns as they are.
\<close>

definition get_sk_contour_axes :: "real list \<Rightarrow> int \<Rightarrow> error + (f64 list \<times> f64 list)" where
  "get_sk_contour_axes domain resolution =
     and_then (getitem domain 0) (\<lambda>xmin.
     and_then (getitem domain 1) (\<lambda>xmax.
     and_then (getitem domain 0) (\<lambda>ymin.
     and_then (getitem domain 1) (\<lambda>ymax.
     and_then (linspace64 xmin xmax resolution) (\<lambda>x_coords.
     and_then (linspace64 ymin ymax resolution) (\<lambda>y_coords.
     Inr (x_coords, y_coords)))))))"

definition get_sk_model :: "string \<Rightarrow> error + estimator" where
  "get_sk_model sk_model_name =
     (let outliers_fraction = 0.05 :: real
      in if sk_model_name = ''if'' then Inr (IsolationForest outliers_fraction)
         else if sk_model_name = ''ocsvm'' then Inr (OneClassSVM outliers_fraction ''rbf'' ''scale'')
         else Inl UnboundLocalError)"

text \<open>
  A sample fitted classifier for concrete evaluations: it scores the point \<open>(x, y)\<close> with
  \<open>x + 10 * y\<close>, one score for each row.
\<close>

definition example_model :: classifier where
  "example_model =
     \<lparr>hyper = IsolationForest 0.05,
      decision_function = (\<lambda>X. Inr (map (\<lambda>p. fst p + 10 * snd p) X))\<rparr>"

text \<open>
  Closed forms used in the proofs: the \<open>n\<close> evenly spaced samples of \<open>[a, b]\<close>, and the
  flat grid of \<^verbatim>\<open>meshgrid\<close> followed by \<^verbatim>\<open>flatten\<close> and \<^verbatim>\<open>stack\<close>.
\<close>

definition samples :: "real \<Rightarrow> real \<Rightarrow> nat \<Rightarrow> real list" where
  "samples a b n = map (\<lambda>i. a + real i * (b - a) / real (n - 1)) [0..<n]"

definition mesh_points :: "real list \<Rightarrow> real list \<Rightarrow> point list" where
  "mesh_points x y =
     zip (concat (replicate (length y) x)) (concat (map (\<lambda>v. replicate (length x) v) y))"

section \<open>Plotting and the training entry point\<close>

text \<open>
  The plotly traces the notebook builds: \<^verbatim>\<open>go.Contour(z, x, y, ncontours)\<close> and
  \<^verbatim>\<open>go.Scatter(x, y, mode, marker=dict(size, color))\<close>.
\<close>

datatype trace =
    Contour (contour_z: ndarray2) (contour_x: "real list") (contour_y: "real list") (ncontours: nat)
  | Scatter (scatter_x: "real list") (scatter_y: "real list") (mode: string)
      (marker_size: real) (marker_color: string)

text \<open>
  The notebook reads a global \<^verbatim>\<open>config\<close> that it never defines; its four attributes in
  use are the fields of \<open>configuration\<close>.
\<close>

record configuration =
  dataset_name :: string
  num_pts :: int
  noise :: real
  domain :: "real list"

text \<open>
  What the notebook's functions take from their surroundings: the global \<^verbatim>\<open>config\<close>, the
  functions \<^verbatim>\<open>load_toy_2d\<close> and \<^verbatim>\<open>default_process\<close> imported from \<^verbatim>\<open>ocml.datasets\<close>,
  scikit-learn's \<^verbatim>\<open>fit\<close> (which turns an estimator into a fitted classifier) and plotly's
  \<^verbatim>\<open>fig.add_trace(trace, row, col)\<close>. The array \<open>X\<close> has shape \<open>(n, 2)\<close> and is a list of
  points; the labels \<open>'y\<close> and the figure \<open>'fig\<close> are opaque. In-place mutation of the figure
  is the figure returned.
\<close>

record ('y, 'fig) ambient =
  config :: configuration
  load_toy_2d :: "string \<Rightarrow> int \<Rightarrow> real \<Rightarrow> error + (point list \<times> 'y)"
  default_process :: "point list \<Rightarrow> 'y \<Rightarrow> error + (point list \<times> 'y)"
  fit :: "estimator \<Rightarrow> point list \<Rightarrow> 'y \<Rightarrow> error + classifier"
  add_trace :: "'fig \<Rightarrow> trace \<Rightarrow> int \<Rightarrow> int \<Rightarrow> error + 'fig"

definition plot_sk_contour ::
  "('y, 'fig) ambient \<Rightarrow> classifier \<Rightarrow> point list \<Rightarrow> 'y \<Rightarrow> 'fig \<Rightarrow> int \<Rightarrow>
   real list option \<Rightarrow> error + 'fig" where
  "plot_sk_contour env model X y fig col domain_arg =
     (let domain_arg = (case domain_arg of None \<Rightarrow> domain (config env) | Some d \<Rightarrow> d) in
      and_then (get_sk_contour model domain_arg 300) (\<lambda>(z_grid, x_coords, y_coords, grid).
      and_then (add_trace env fig (Contour z_grid x_coords y_coords 20) 1 col) (\<lambda>fig.
      and_then (add_trace env fig
                 (Scatter (map fst X) (map snd X) ''markers'' 1.5 ''black'') 1 col) (\<lambda>fig.
      Inr fig))))"

text \<open>
  The notebook defines \<^verbatim>\<open>train_plot_sk_model\<close> twice, in two successive cells. Each
  definition is translated from its own cell; the Python returns \<^verbatim>\<open>None\<close>, and the result
  here is the figure after the two traces were added.
\<close>

definition train_plot_sk_model_cell3 ::
  "('y, 'fig) ambient \<Rightarrow> 'fig \<Rightarrow> int \<Rightarrow> string \<Rightarrow> string \<Rightarrow> real list option \<Rightarrow> error + 'fig" where
  "train_plot_sk_model_cell3 env fig col ds_name sk_model_name domain_arg =
     and_then (load_toy_2d env (dataset_name (config env)) (num_pts (config env))
                 (noise (config env))) (\<lambda>(X, y).
     and_then (default_process env X y) (\<lambda>(X, y).
     and_then (get_sk_model sk_model_name) (\<lambda>sk_model.
     and_then (fit env sk_model X y) (\<lambda>sk_model.
     plot_sk_contour env sk_model X y fig col domain_arg))))"

definition train_plot_sk_model_cell4 ::
  "('y, 'fig) ambient \<Rightarrow> 'fig \<Rightarrow> int \<Rightarrow> string \<Rightarrow> string \<Rightarrow> real list option \<Rightarrow> error + 'fig" where
  "train_plot_sk_model_cell4 env fig col ds_name sk_model_name domain_arg =
     and_then (load_toy_2d env (dataset_name (config env)) (num_pts (config env))
                 (noise (config env))) (\<lambda>(X, y).
     and_then (default_process env X y) (\<lambda>(X, y).
     and_then (get_sk_model sk_model_name) (\<lambda>sk_model.
     and_then (fit env sk_model X y) (\<lambda>sk_model.
     plot_sk_contour env sk_model X y fig col domain_arg))))"

text \<open>
  A cell that runs later rebinds the name: after both cells have run,
  \<^verbatim>\<open>train_plot_sk_model\<close> is the second definition.
\<close>

definition train_plot_sk_model ::
  "('y, 'fig) ambient \<Rightarrow> 'fig \<Rightarrow> int \<Rightarrow> string \<Rightarrow> string \<Rightarrow> real list option \<Rightarrow> error + 'fig" where
  "train_plot_sk_model = train_plot_sk_model_cell4"

text \<open>
  A sample surrounding for concrete evaluations: a loader that knows the dataset
  \<^verbatim>\<open>moons\<close> only, an identity preprocessing, a \<^verbatim>\<open>fit\<close> that returns a classifier scoring
  \<open>(x, y)\<close> with \<open>x + 10 * y\<close>, and a figure that is the list of its placed traces.
\<close>

definition example_env :: "(unit, (trace \<times> int \<times> int) list) ambient" where
  "example_env =
     \<lparr>config = \<lparr>dataset_name = ''circles'', num_pts = 2, noise = 0, domain = [-3, 3]\<rparr>,
      load_toy_2d = (\<lambda>name n sigma.
         if name = ''moons'' then Inr ([(0, 0), (1, 1)], ()) else Inl (Raised ''KeyError'')),
      default_process = (\<lambda>X y. Inr (X, y)),
      fit = (\<lambda>est X y. Inr (example_model\<lparr>hyper := est\<rparr>)),
      add_trace = (\<lambda>fig t row col. Inr (fig @ [(t, row, col)]))\<rparr>"

section \<open>The experiment driver\<close>

text \<open>
  \<^verbatim>\<open>experiments/run_mnist.sh\<close> is a bash script. A simple command is its assignment prefix
  (the environment variables set for that command only) and its words. The shell state
  is the list of simple commands issued so far, the exit status \<^verbatim>\<open>$?\<close> of the last one, the
  \<^verbatim>\<open>errexit\<close> option (\<^verbatim>\<open>set -e\<close>) and whether the shell has exited.
\<close>

record command =
  assignments :: "(string \<times> string) list"
  argv :: "string list"

record shell =
  issued :: "command list"
  status :: nat
  errexit :: bool
  exited :: bool

text \<open>
  The script starts with \<^verbatim>\<open>#!/bin/bash\<close> and no option, and never runs \<^verbatim>\<open>set -e\<close>:
  bash starts with \<^verbatim>\<open>errexit\<close> off.
\<close>

definition bash_start :: shell where
  "bash_start = \<lparr>issued = [], status = 0, errexit = False, exited = False\<rparr>"

text \<open>
  Running one simple command. The exit status comes from outside: \<open>world k cmd\<close> is the
  status with which the \<open>k\<close>-th issued command \<open>cmd\<close> ends. Under \<^verbatim>\<open>errexit\<close> a non-zero
  status ends the shell; a shell that has exited runs nothing.
\<close>

definition run :: "(nat \<Rightarrow> command \<Rightarrow> nat) \<Rightarrow> command \<Rightarrow> shell \<Rightarrow> shell" where
  "run world cmd s =
     (if exited s then s
      else
        let st = world (length (issued s)) cmd;
            s = s\<lparr>issued := issued s @ [cmd], status := st\<rparr>
        in if errexit s \<and> st \<noteq> 0 then s\<lparr>exited := True\<rparr> else s)"

text \<open>Decimal numerals, as \<^verbatim>\<open>seq\<close> prints them.\<close>

fun decimal :: "nat \<Rightarrow> string" where
  "decimal n =
     (if n < 10 then [char_of (48 + n)]
      else decimal (n div 10) @ [char_of (48 + n mod 10)])"

declare decimal.simps [simp del]

text \<open>
  The words of the command substitution \<^verbatim>\<open>`seq 1 $1`\<close>: the integers from \<open>lo\<close> to
  \<open>hi\<close>, none when \<open>hi < lo\<close>. It runs in a subshell and is not among the issued
  commands.
\<close>

definition seq :: "int \<Rightarrow> int \<Rightarrow> string list" where
  "seq lo hi =
     map (\<lambda>k. if k < 0 then CHR ''-'' # decimal (nat (- k)) else decimal (nat k)) [lo..hi]"

definition jupyter_nbconvert :: command where
  "jupyter_nbconvert =
     \<lparr>assignments = [],
      argv = [''jupyter'', ''nbconvert'', ''--to=script'', ''--output-dir=experiments/'',
              ''./run_mnist.ipynb'']\<rparr>"

definition echo_class :: "string \<Rightarrow> command" where
  "echo_class c = \<lparr>assignments = [], argv = [''echo'', ''Run experiments for class '' @ c]\<rparr>"

text \<open>The degree sign of the message is the two bytes \<open>0xC2 0xB0\<close> of its UTF-8 encoding.\<close>

definition echo_experiment :: "string \<Rightarrow> string \<Rightarrow> string \<Rightarrow> string \<Rightarrow> command" where
  "echo_experiment script tag c i =
     \<lparr>assignments = [],
      argv = [''echo'',
              ''Run experiment n'' @ [CHR 0xC2, CHR 0xB0] @ i @ '' from script '' @ script @
              '' with group mnist'' @ c @ ''_'' @ tag @ '' in class '' @ c]\<rparr>"

definition python_run_mnist :: "string \<Rightarrow> string \<Rightarrow> command" where
  "python_run_mnist tag c =
     \<lparr>assignments = [(''PLOTLY_RENDERER'', ''png''), (''DATASET_NAME'', ''mnist''),
                     (''IN_CLASS'', c), (''WANDB_GROUP'', ''mnist'' @ c @ ''_'' @ tag)],
      argv = [''python'', ''experiments/run_mnist.py'']\<rparr>"

definition classes :: "string list" where
  "classes = [''0'', ''1'', ''2'', ''3'', ''5'', ''6'', ''7'', ''9'']"

text \<open>
  The script, with \<open>script\<close> for \<^verbatim>\<open>$0\<close>, the repeat count \<open>n\<close> for \<^verbatim>\<open>$1\<close> and \<open>tag\<close> for
  \<^verbatim>\<open>$2\<close>. Each \<^verbatim>\<open>for\<close> loop is a fold of its body over its words.
\<close>

definition run_mnist :: "(nat \<Rightarrow> command \<Rightarrow> nat) \<Rightarrow> string \<Rightarrow> int \<Rightarrow> string \<Rightarrow> shell" where
  "run_mnist world script n tag =
     (let s = run world jupyter_nbconvert bash_start
      in fold (\<lambda>c s.
           let s = run world (echo_class c) s
           in fold (\<lambda>i s.
                let s = run world (echo_experiment script tag c i) s
                in run world (python_run_mnist tag c) s)
              (seq 1 n) s)
         classes s)"

text \<open>The sub-invocations of the training script among the issued commands.\<close>

definition trainings :: "shell \<Rightarrow> command list" where
  "trainings s = filter (\<lambda>cmd. argv cmd = [''python'', ''experiments/run_mnist.py'']) (issued s)"

text \<open>
  The (class, repeat-index) pairs of the two loops, in the order the loops visit them.
\<close>

definition loop_pairs :: "int \<Rightarrow> (string \<times> string) list" where
  "loop_pairs n = concat (map (\<lambda>c. map (\<lambda>i. (c, i)) (seq 1 n)) classes)"

text \<open>
  The commands the script issues when no command ends the shell: the conversion of the
  notebook, then for each class its announcement and, for each repeat, the announcement
  of the run and the training invocation.
\<close>

definition transcript :: "string \<Rightarrow> int \<Rightarrow> string \<Rightarrow> command list" where
  "transcript script n tag =
     jupyter_nbconvert #
     concat (map (\<lambda>c. echo_class c #
                   concat (map (\<lambda>i. [echo_experiment script tag c i, python_run_mnist tag c])
                            (seq 1 n)))
              classes)"

section \<open>Properties of the array primitives\<close>

lemma and_then_Inr [simp]: "and_then (Inr v) f = f v"
  by (simp add: and_then_def)

lemma and_then_Inl [simp]: "and_then (Inl e) f = Inl e"
  by (simp add: and_then_def)

lemma linspace_closed:
  assumes "2 \<le> r"
  shows "linspace a b r = Inr (samples a b (nat r))"
proof -
  define n where "n = nat r"
  have n2: "2 \<le> n" and rn: "r = int n" using assms by (simp_all add: n_def)
  have dv: "real_of_int (int n - 1) = real (n - 1)" using n2 by (simp add: of_nat_diff)
  have nz: "real (n - 1) \<noteq> 0" using n2 by simp
  have last: "a + real (n - 1) * (b - a) / real (n - 1) = b" using nz by simp
  show ?thesis
    using n2 last nz unfolding linspace_def Let_def rn samples_def
    by (auto intro!: nth_equalityI simp: nth_list_update of_nat_diff)
qed

lemma linspace_nonneg:
  "0 \<le> r \<Longrightarrow> \<exists>xs. linspace a b r = Inr xs \<and> length xs = nat r"
  by (simp add: linspace_def Let_def)

lemma length_samples: "length (samples a b n) = n"
  by (simp add: samples_def)

lemma nth_samples: "i < n \<Longrightarrow> samples a b n ! i = a + real i * (b - a) / real (n - 1)"
  by (simp add: samples_def)

lemma samples_last: "2 \<le> n \<Longrightarrow> samples a b n ! (n - 1) = b"
  by (simp add: nth_samples)

lemma linspace_0_2_3: "linspace 0 2 3 = Inr [0, 1, 2]"
proof -
  have "[0..<3] = [0, 1, 2]" by (simp add: upt_rec)
  then show ?thesis by (simp add: linspace_closed samples_def)
qed

lemma linspace_last:
  assumes "2 \<le> r" "linspace a b r = Inr xs"
  shows "last xs = b"
proof -
  have n2: "2 \<le> nat r" using assms(1) by simp
  have xs: "xs = samples a b (nat r)" using linspace_closed[OF assms(1), of a b] assms(2) by simp
  have "xs \<noteq> []" using n2 by (auto simp: xs samples_def)
  then show ?thesis
    using samples_last[OF n2, of a b] by (simp add: last_conv_nth xs length_samples)
qed

lemma linspace_length:
  assumes "linspace a b r = Inr xs"
  shows "length xs = nat r"
proof (cases "0 \<le> r")
  case True
  then show ?thesis using linspace_nonneg[of r a b] assms by auto
next
  case False
  then show ?thesis using assms by (simp add: linspace_def)
qed

lemma length_concat_replicate: "length (concat (replicate m xs)) = m * length xs"
  by (induction m) simp_all

lemma length_concat_map_replicate:
  "length (concat (map (\<lambda>v. replicate n v) ys)) = length ys * n"
  by (induction ys) simp_all

lemma nth_concat_replicate:
  "j < m \<Longrightarrow> i < length xs \<Longrightarrow> concat (replicate m xs) ! (j * length xs + i) = xs ! i"
proof (induction m arbitrary: j)
  case 0
  then show ?case by simp
next
  case (Suc m)
  show ?case
  proof (cases j)
    case 0
    with Suc.prems show ?thesis by (simp add: nth_append)
  next
    case (Suc k)
    with Suc.prems Suc.IH[of k] show ?thesis by (simp add: nth_append)
  qed
qed

lemma nth_concat_map_replicate:
  "j < length ys \<Longrightarrow> i < n \<Longrightarrow>
   concat (map (\<lambda>v. replicate n v) ys) ! (j * n + i) = ys ! j"
proof (induction ys arbitrary: j)
  case Nil
  then show ?case by simp
next
  case (Cons y ys)
  show ?case
  proof (cases j)
    case 0
    with Cons.prems show ?thesis by (simp add: nth_append)
  next
    case (Suc k)
    with Cons.prems Cons.IH[of k] show ?thesis by (simp add: nth_append)
  qed
qed

lemma flat_index_less: "j < m \<Longrightarrow> i < n \<Longrightarrow> j * n + i < m * (n::nat)"
proof -
  assume j: "j < m" and i: "i < n"
  have "j * n + i < j * n + n" using i by simp
  also have "\<dots> = Suc j * n" by simp
  also have "\<dots> \<le> m * n" using j by (intro mult_le_mono1) simp
  finally show ?thesis .
qed

lemma length_mesh_points: "length (mesh_points x y) = length y * length x"
  by (simp add: mesh_points_def length_concat_replicate length_concat_map_replicate)

lemma nth_mesh_points:
  assumes "j < length y" "i < length x"
  shows "mesh_points x y ! (j * length x + i) = (x ! i, y ! j)"
proof -
  have "j * length x + i < length y * length x"
    using assms by (rule flat_index_less)
  then show ?thesis
    using assms
    by (simp add: mesh_points_def length_concat_replicate length_concat_map_replicate
        nth_concat_replicate nth_concat_map_replicate)
qed

lemma set_mesh_points: "set (mesh_points x y) = set x \<times> set y"
proof (intro set_eqI iffI)
  fix p assume "p \<in> set (mesh_points x y)"
  then obtain k where k: "k < length y * length x" and p: "p = mesh_points x y ! k"
    by (auto simp: in_set_conv_nth length_mesh_points)
  have x0: "0 < length x" using k by (cases "length x") auto
  have "k div length x < length y" using k x0
    by (simp add: less_mult_imp_div_less)
  moreover have "k mod length x < length x" using x0 by simp
  moreover have "k = (k div length x) * length x + k mod length x" by simp
  ultimately have "p = (x ! (k mod length x), y ! (k div length x))"
    using nth_mesh_points[of "k div length x" y "k mod length x" x] p by simp
  then show "p \<in> set x \<times> set y"
    using \<open>k div length x < length y\<close> \<open>k mod length x < length x\<close> by simp
next
  fix p assume "p \<in> set x \<times> set y"
  then obtain i j where i: "i < length x" and j: "j < length y" and p: "p = (x ! i, y ! j)"
    by (cases p) (auto simp: in_set_conv_nth)
  have "j * length x + i < length (mesh_points x y)"
    using flat_index_less[OF j i] by (simp add: length_mesh_points)
  then show "p \<in> set (mesh_points x y)"
    using nth_mesh_points[OF j i] p by (metis nth_mem)
qed

lemma mesh_points_3:
  "mesh_points [0, 1, 2] [0, 1, 2] =
     [(0, 0), (1, 0), (2, 0), (0, 1), (1, 1), (2, 1), (0, 2), (1, 2), (2, 2)]"
  by (simp add: mesh_points_def)

section \<open>Properties of binary64 rounding\<close>

lemma round_half_even_of_int: "round_half_even (of_int m) = m"
  by (simp add: round_half_even_def)

lemma round_half_even_half:
  "round_half_even (of_int m + 1 / 2) = (if even m then m else m + 1)"
proof -
  have "\<lfloor>of_int m + (1 / 2 :: real)\<rfloor> = m" by linarith
  then show ?thesis by (simp add: round_half_even_def Let_def)
qed

lemma round_half_even_up:
  assumes "of_int m - 1 / 2 < x" "x < of_int m"
  shows "round_half_even x = m"
proof -
  have f: "\<lfloor>x\<rfloor> = m - 1" using assms by linarith
  show ?thesis using assms by (simp add: round_half_even_def Let_def f)
qed

lemma round_half_even_pos:
  assumes "1 \<le> x"
  shows "1 \<le> round_half_even x"
proof -
  have "1 \<le> \<lfloor>x\<rfloor>" using assms by linarith
  then show ?thesis by (auto simp: round_half_even_def Let_def)
qed

lemma quantum_exp_eq:
  assumes "qe = int k - 1074 \<or> \<bar>x\<bar> < 2 powi (qe + 53)"
    "qe = - 1074 \<or> 2 powi (qe + 52) \<le> \<bar>x\<bar>"
    "- 1074 \<le> qe" "qe \<le> int k - 1074"
  shows "quantum_exp k x = qe"
  using assms
proof (induction k)
  case 0
  then show ?case by simp
next
  case (Suc k)
  show ?case
  proof (cases "qe = int k - 1073")
    case True
    with Suc.prems(2) have "2 powi (int k - 1021) \<le> \<bar>x\<bar>" by auto
    with True show ?thesis by simp
  next
    case False
    with Suc.prems(4) have le: "qe \<le> int k - 1074" by simp
    from False Suc.prems(1) have up: "\<bar>x\<bar> < 2 powi (qe + 53)" by simp
    have "(2::real) powi (qe + 53) \<le> 2 powi (int k - 1021)"
      using le by (intro power_int_increasing) simp_all
    with up have "\<not> 2 powi (int k - 1021) \<le> \<bar>x\<bar>" by simp
    moreover have "quantum_exp k x = qe"
      using up Suc.prems(2,3) le by (intro Suc.IH) simp_all
    ultimately show ?thesis by simp
  qed
qed

lemma quantum_exp_range:
  "- 1074 \<le> quantum_exp k x \<and> quantum_exp k x \<le> int k - 1074 \<and>
   (quantum_exp k x = - 1074 \<or> 2 powi (quantum_exp k x + 52) \<le> \<bar>x\<bar>)"
  by (induction k) (auto simp: algebra_simps)

lemma rnd_eq:
  assumes "qe = 971 \<or> \<bar>x\<bar> < 2 powi (qe + 53)"
    "qe = - 1074 \<or> 2 powi (qe + 52) \<le> \<bar>x\<bar>"
    "- 1074 \<le> qe" "qe \<le> 971"
    and "y = of_int (round_half_even (x / 2 powi qe)) * 2 powi qe"
  shows "rnd x = (if 2 ^ 1024 \<le> \<bar>y\<bar> then (if 0 < x then PInf else NInf) else F y)"
proof -
  have "quantum_exp 2045 x = qe" using assms(1-4) by (intro quantum_exp_eq) auto
  then show ?thesis by (simp add: rnd_def Let_def assms(5))
qed

lemma rnd_exact:
  assumes x: "x = of_int m * 2 powi e" and m: "\<bar>m\<bar> < 2 ^ 53" and e: "- 1074 \<le> e" "e \<le> 971"
  shows "rnd x = F x"
proof -
  define qe where "qe = quantum_exp 2045 x"
  have range: "- 1074 \<le> qe" "qe \<le> 971" "qe = - 1074 \<or> 2 powi (qe + 52) \<le> \<bar>x\<bar>"
    using quantum_exp_range[of 2045 x] by (simp_all add: qe_def)
  have mr: "\<bar>real_of_int m\<bar> < 2 ^ 53"
    using m by (metis of_int_abs of_int_less_numeral_power_cancel_iff)
  have absx: "\<bar>x\<bar> = \<bar>real_of_int m\<bar> * 2 powi e" by (simp add: x abs_mult)
  have small: "\<bar>x\<bar> < 2 ^ 1024"
  proof -
    have "\<bar>x\<bar> \<le> \<bar>real_of_int m\<bar> * 2 powi 971"
      unfolding absx using e by (intro mult_left_mono power_int_increasing) simp_all
    also have "\<dots> < 2 ^ 53 * 2 powi 971"
      using mr by (intro mult_strict_right_mono) simp_all
    also have "\<dots> = 2 ^ 1024" by (simp add: power_add[symmetric])
    finally show ?thesis .
  qed
  have y: "of_int (round_half_even (x / 2 powi qe)) * 2 powi qe = x"
  proof (cases "m = 0")
    case True
    then show ?thesis by (simp add: x round_half_even_def)
  next
    case False
    have "qe \<le> e"
    proof (rule ccontr)
      assume "\<not> qe \<le> e"
      then have lt: "e + 53 \<le> qe + 52" and "qe \<noteq> - 1074" using e by simp_all
      with range(3) have "2 powi (qe + 52) \<le> \<bar>x\<bar>" by simp
      moreover have "\<bar>x\<bar> < 2 ^ 53 * 2 powi e"
        unfolding absx using mr by (intro mult_strict_right_mono) simp_all
      moreover have "(2::real) ^ 53 * 2 powi e = 2 powi (e + 53)"
        by (simp add: power_int_add)
      moreover have "(2::real) powi (e + 53) \<le> 2 powi (qe + 52)"
        using lt by (intro power_int_increasing) simp_all
      ultimately show False by simp
    qed
    then have "(2::real) powi e = 2 powi qe * 2 ^ nat (e - qe)"
      using power_int_add[of "2::real" qe "e - qe"] by (simp add: power_int_def)
    then have "x / 2 powi qe = of_int (m * 2 ^ nat (e - qe))" by (simp add: x)
    then have "round_half_even (x / 2 powi qe) = m * 2 ^ nat (e - qe)"
      by (simp only: round_half_even_of_int)
    then show ?thesis
      using \<open>(2::real) powi e = 2 powi qe * 2 ^ nat (e - qe)\<close> by (simp add: x)
  qed
  show ?thesis
    using small by (simp add: rnd_def Let_def qe_def[symmetric] y)
qed

lemma rnd_int: "\<bar>m\<bar> < 2 ^ 53 \<Longrightarrow> rnd (of_int m) = F (of_int m)"
  using rnd_exact[of "of_int m" m 0] by simp

lemma rnd_0: "rnd 0 = F 0"
  using rnd_int[of 0] by simp

lemma rnd_not_NaN: "rnd x \<noteq> NaN"
  by (simp add: rnd_def Let_def)

lemma rnd_ge_1_nonzero:
  assumes "1 \<le> x"
  shows "rnd x \<noteq> F 0"
proof -
  define qe where "qe = quantum_exp 2045 x"
  define q :: real where "q = 2 powi qe"
  have range: "- 1074 \<le> qe" "qe = - 1074 \<or> 2 powi (qe + 52) \<le> \<bar>x\<bar>"
    using quantum_exp_range[of 2045 x] by (simp_all add: qe_def)
  have q0: "0 < q" by (simp add: q_def)
  have "q \<le> x"
  proof (cases "qe = - 1074")
    case True
    have "(2::real) powi (- 1074) \<le> 2 powi 0" by (intro power_int_increasing) simp_all
    then show ?thesis using assms by (simp add: q_def True)
  next
    case False
    have "q \<le> 2 powi (qe + 52)" unfolding q_def by (intro power_int_increasing) simp_all
    with range(2) False assms show ?thesis by simp
  qed
  then have "1 \<le> x / q" using q0 by (simp add: field_simps)
  then have "1 \<le> round_half_even (x / q)" by (rule round_half_even_pos)
  then have "0 < real_of_int (round_half_even (x / q)) * q" using q0 by simp
  then show ?thesis by (auto simp: rnd_def Let_def qe_def[symmetric] q_def[symmetric])
qed

lemma linspace64_unfold:
  assumes r: "2 \<le> r"
  shows "linspace64 a b r =
    Inr ((map (\<lambda>i. sample64 (rnd a) (fsub (rnd b) (rnd a)) (rnd (real_of_int (r - 1)))
                   (rnd (real i)))
           [0..<nat r])
         [nat r - 1 := rnd b])"
  using r by (simp add: linspace64_def Let_def sample64_def comp_def)

lemma fdiv_zero:
  assumes "D \<noteq> NaN" "D \<noteq> F 0"
  shows "fdiv (F 0) D = F 0"
  using assms by (cases D) (simp_all add: rnd_0)

lemma fdiv_finite_zero:
  assumes "fdiv delta D = F 0" "D \<noteq> NaN" "D \<noteq> F 0"
  shows "\<exists>d. delta = F d"
  using assms by (cases delta; cases D) (simp_all split: if_splits)

lemma sample64_first:
  assumes D: "D \<noteq> NaN" "D \<noteq> F 0" and step: "fdiv delta D = F s"
  shows "sample64 (F a) delta D (F 0) = rnd a"
proof (cases "s = 0")
  case True
  then have z: "fdiv delta D = F 0" using step by simp
  then obtain d where "delta = F d" using fdiv_finite_zero[OF z D] by blast
  then show ?thesis using z fdiv_zero[OF D] by (simp add: sample64_def rnd_0)
next
  case False
  then show ?thesis using step by (simp add: sample64_def rnd_0)
qed

lemma round_half_even_le:
  assumes "x \<le> of_int N"
  shows "round_half_even x \<le> N"
proof -
  have "\<lfloor>x\<rfloor> \<le> N" using assms by linarith
  moreover have "\<lfloor>x\<rfloor> = N \<Longrightarrow> x - of_int \<lfloor>x\<rfloor> = 0" using assms by linarith
  ultimately show ?thesis
    by (cases "\<lfloor>x\<rfloor> = N") (auto simp: round_half_even_def Let_def)
qed

lemma round_half_even_ge:
  assumes "of_int N \<le> x"
  shows "N \<le> round_half_even x"
proof -
  have "N \<le> \<lfloor>x\<rfloor>" using assms by linarith
  then show ?thesis by (auto simp: round_half_even_def Let_def)
qed

lemma quantum_exp_upper:
  "quantum_exp k x < int k - 1074 \<Longrightarrow> \<bar>x\<bar> < 2 powi (quantum_exp k x + 53)"
proof (induction k)
  case 0
  then show ?case by simp
next
  case (Suc k)
  show ?case
  proof (cases "2 powi (int k - 1021) \<le> \<bar>x\<bar>")
    case True
    with Suc.prems show ?thesis by simp
  next
    case False
    show ?thesis
    proof (cases "quantum_exp k x < int k - 1074")
      case True
      with Suc.IH False show ?thesis by simp
    next
      case False
      then have "quantum_exp k x = int k - 1074"
        using quantum_exp_range[of k x] by simp
      then have "quantum_exp (Suc k) x + 53 = int k - 1021"
        using \<open>\<not> 2 powi (int k - 1021) \<le> \<bar>x\<bar>\<close> by simp
      then show ?thesis
        using \<open>\<not> 2 powi (int k - 1021) \<le> \<bar>x\<bar>\<close> by (simp only: not_le)
    qed
  qed
qed

text \<open>The magnitude of the rounded value, before the overflow test.\<close>

lemma rnd_magnitude:
  fixes x :: real
  defines "qe \<equiv> quantum_exp 2045 x"
  defines "y \<equiv> real_of_int (round_half_even (x / 2 powi qe)) * 2 powi qe"
  assumes "qe < 971 \<or> \<bar>x\<bar> \<le> (2 ^ 53 - 1) * 2 ^ 971"
  shows "\<bar>y\<bar> \<le> (2 ^ 53 - 1) * 2 ^ 971"
proof -
  define q :: real where "q = 2 powi qe"
  define m where "m = round_half_even (x / q)"
  have q0: "0 < q" by (simp add: q_def)
  have absy: "\<bar>y\<bar> = \<bar>real_of_int m\<bar> * q"
    using q0 by (simp add: y_def m_def q_def abs_mult)
  show ?thesis
  proof (cases "qe < 971")
    case True
    then have "\<bar>x\<bar> < 2 powi (qe + 53)"
      using quantum_exp_upper[of 2045 x] by (simp add: qe_def)
    also have "\<dots> = 2 ^ 53 * q" by (simp add: q_def power_int_add)
    finally have "\<bar>x\<bar> / q < 2 ^ 53" using q0 by (simp add: field_simps)
    then have "\<bar>x / q\<bar> < 2 ^ 53" using q0 by (simp add: abs_divide)
    then have "x / q \<le> 2 ^ 53" "- (2 ^ 53) \<le> x / q" unfolding abs_less_iff by linarith+
    then have "x / q \<le> real_of_int (2 ^ 53)" "real_of_int (- (2 ^ 53)) \<le> x / q" by simp_all
    then have "m \<le> 2 ^ 53" "- (2 ^ 53) \<le> m"
      unfolding m_def by (simp_all only: round_half_even_le round_half_even_ge)
    then have "real_of_int m \<le> real_of_int (2 ^ 53)" "real_of_int (- (2 ^ 53)) \<le> real_of_int m"
      by (simp_all only: of_int_le_iff)
    then have "\<bar>real_of_int m\<bar> \<le> 2 ^ 53" unfolding abs_le_iff by simp
    moreover have "q \<le> 2 powi 970"
      unfolding q_def using True by (intro power_int_increasing) simp_all
    ultimately have "\<bar>y\<bar> \<le> 2 ^ 53 * 2 powi 970"
      unfolding absy using q0 by (intro mult_mono) simp_all
    also have "\<dots> \<le> (2 ^ 53 - 1) * 2 ^ 971" by simp
    finally show ?thesis .
  next
    case False
    then have qe: "qe = 971" using quantum_exp_range[of 2045 x] by (simp add: qe_def)
    with assms(3) have "\<bar>x\<bar> \<le> (2 ^ 53 - 1) * q" by (simp add: q_def)
    then have "\<bar>x\<bar> / q \<le> 2 ^ 53 - 1" using q0 by (simp add: field_simps)
    then have "\<bar>x / q\<bar> \<le> 2 ^ 53 - 1" using q0 by (simp add: abs_divide)
    then have "x / q \<le> 2 ^ 53 - 1" "- (2 ^ 53 - 1) \<le> x / q" unfolding abs_le_iff by linarith+
    then have "x / q \<le> real_of_int (2 ^ 53 - 1)" "real_of_int (- (2 ^ 53 - 1)) \<le> x / q"
      by simp_all
    then have "m \<le> 2 ^ 53 - 1" "- (2 ^ 53 - 1) \<le> m"
      unfolding m_def by (simp_all only: round_half_even_le round_half_even_ge)
    then have "real_of_int m \<le> real_of_int (2 ^ 53 - 1)"
      "real_of_int (- (2 ^ 53 - 1)) \<le> real_of_int m"
      by (simp_all only: of_int_le_iff)
    then have "\<bar>real_of_int m\<bar> \<le> 2 ^ 53 - 1" unfolding abs_le_iff by simp
    then have "\<bar>y\<bar> \<le> (2 ^ 53 - 1) * q"
      unfolding absy using q0 by (intro mult_right_mono) simp_all
    then show ?thesis by (simp add: q_def qe)
  qed
qed

lemma rnd_finite:
  assumes "\<bar>x\<bar> \<le> (2 ^ 53 - 1) * 2 ^ 971"
  shows "\<exists>y. rnd x = F y"
proof -
  have "\<bar>real_of_int (round_half_even (x / 2 powi quantum_exp 2045 x)) *
          2 powi quantum_exp 2045 x\<bar> \<le> (2 ^ 53 - 1) * 2 ^ 971"
    using assms by (intro rnd_magnitude) simp
  also have "\<dots> < (2::real) ^ 1024" by simp
  finally show ?thesis by (simp add: rnd_def Let_def)
qed

lemma rnd_bounded:
  assumes "rnd x = F y"
  shows "\<bar>y\<bar> \<le> (2 ^ 53 - 1) * 2 ^ 971"
proof -
  define qe where "qe = quantum_exp 2045 x"
  define m where "m = round_half_even (x / 2 powi qe)"
  have y: "y = real_of_int m * 2 powi qe" and small: "\<bar>y\<bar> < 2 ^ 1024"
    using assms by (auto simp: rnd_def Let_def qe_def m_def split: if_splits)
  show ?thesis
  proof (cases "qe < 971")
    case True
    then show ?thesis
      using rnd_magnitude[of x] by (simp add: y m_def qe_def)
  next
    case False
    then have qe: "qe = 971" using quantum_exp_range[of 2045 x] by (simp add: qe_def)
    have "\<bar>real_of_int m\<bar> * 2 ^ 971 < 2 ^ 53 * (2::real) ^ 971"
      using small by (simp add: y qe abs_mult)
    then have "real_of_int \<bar>m\<bar> < real_of_int (2 ^ 53)" by simp
    then have "\<bar>m\<bar> < 2 ^ 53" by (simp only: of_int_less_iff)
    then have "\<bar>m\<bar> \<le> 2 ^ 53 - 1" by simp
    then have "real_of_int \<bar>m\<bar> \<le> real_of_int (2 ^ 53 - 1)" by (simp only: of_int_le_iff)
    then have "\<bar>real_of_int m\<bar> \<le> 2 ^ 53 - 1" by simp
    then have "\<bar>real_of_int m\<bar> * 2 ^ 971 \<le> (2 ^ 53 - 1) * (2::real) ^ 971"
      by (intro mult_right_mono) simp_all
    then show ?thesis by (simp add: y qe abs_mult)
  qed
qed

lemma rnd_ge_1:
  assumes "1 \<le> x" "rnd x = F y"
  shows "1 \<le> y"
proof -
  define qe where "qe = quantum_exp 2045 x"
  define q :: real where "q = 2 powi qe"
  define m where "m = round_half_even (x / q)"
  have y: "y = real_of_int m * q"
    using assms(2) by (auto simp: rnd_def Let_def qe_def m_def q_def split: if_splits)
  have q0: "0 < q" by (simp add: q_def)
  have range: "qe \<le> 971" "qe = - 1074 \<or> 2 powi (qe + 52) \<le> \<bar>x\<bar>"
    using quantum_exp_range[of 2045 x] by (simp_all add: qe_def)
  have upper: "qe < 971 \<Longrightarrow> x < 2 powi (qe + 53)"
    using quantum_exp_upper[of 2045 x] assms(1) by (simp add: qe_def)
  have big: "- 52 \<le> qe"
  proof (cases "qe < 971")
    case True
    have "0 < qe + 53"
    proof (rule ccontr)
      assume "\<not> 0 < qe + 53"
      then have "(2::real) powi (qe + 53) \<le> 2 powi 0"
        by (intro power_int_increasing) simp_all
      with upper[OF True] assms(1) show False by simp
    qed
    then show ?thesis by simp
  next
    case False
    then show ?thesis using range(1) by simp
  qed
  then have "qe \<noteq> - 1074" by simp
  with range(2) assms(1) have "2 powi (qe + 52) \<le> x" by simp
  then have "2 ^ 52 * q \<le> x" by (simp add: q_def power_int_add)
  then have "of_int (2 ^ 52) \<le> x / q" using q0 by (simp add: field_simps)
  then have "2 ^ 52 \<le> m" unfolding m_def by (rule round_half_even_ge)
  then have "real_of_int (2 ^ 52) \<le> real_of_int m" by (simp only: of_int_le_iff)
  then have "(2::real) ^ 52 \<le> real_of_int m" by simp
  then have "2 ^ 52 * q \<le> y" unfolding y using q0 by (intro mult_right_mono) simp_all
  moreover have "(2::real) powi 0 \<le> 2 powi (qe + 52)"
    using big by (intro power_int_increasing) simp_all
  ultimately show ?thesis by (simp add: q_def power_int_add)
qed

lemma fdiv_finite:
  assumes delta: "rnd z = F d" and k: "1 \<le> k"
  shows "\<exists>s. fdiv (F d) (rnd k) = F s"
proof (cases "rnd k")
  case (F n)
  have n1: "1 \<le> n" using rnd_ge_1[OF k F] .
  have "\<bar>d\<bar> * 1 \<le> \<bar>d\<bar> * n" using n1 by (intro mult_left_mono) simp_all
  then have "\<bar>d / n\<bar> \<le> \<bar>d\<bar>" using n1 by (simp add: field_simps)
  also have "\<dots> \<le> (2 ^ 53 - 1) * 2 ^ 971" using delta by (rule rnd_bounded)
  finally obtain s where "rnd (d / n) = F s" using rnd_finite by blast
  then show ?thesis using F n1 by simp
next
  case PInf
  then show ?thesis by simp
next
  case NInf
  then show ?thesis by simp
next
  case NaN
  then show ?thesis using rnd_not_NaN by simp
qed

lemma list_update_last3: "[x0, x1, x2][nat 3 - 1 := v] = [x0, x1, v]"
  by (simp add: numeral_2_eq_2)

lemma upt_nat_3: "[0..<nat 3] = [0, 1, 2]"
  by (simp add: upt_rec)

lemma linspace64_tie:
  "linspace64 1 (1 + 1 / 2 ^ 52) 3 = Inr [F 1, F 1, F (1 + 1 / 2 ^ 52)]"
proof -
  define u :: real where "u = 1 / 2 ^ 53"
  define b :: real where "b = 1 + 2 * u"
  have u0: "u \<noteq> 0" "0 < u" by (simp_all add: u_def)
  have b: "1 + 1 / 2 ^ 52 = b" by (simp add: b_def u_def)
  have r1: "rnd 1 = F 1" using rnd_int[of 1] by simp
  have r2: "rnd 2 = F 2" using rnd_int[of 2] by simp
  have rb: "rnd b = F b"
    by (rule rnd_exact[of _ "2 ^ 52 + 1" "- 52"]) (simp_all add: b_def u_def power_int_minus)
  have ru: "rnd u = F u"
    by (rule rnd_exact[of _ 1 "- 53"]) (simp_all add: u_def power_int_minus)
  have r2u: "rnd (2 * u) = F (2 * u)"
    by (rule rnd_exact[of _ 1 "- 52"]) (simp_all add: u_def power_int_minus)
  have tie: "rnd (u + 1) = F 1"
  proof -
    have "(u + 1) / 2 powi (- 52) = real_of_int (2 ^ 52) + 1 / 2"
      by (simp add: u_def power_int_minus field_simps)
    then have "round_half_even ((u + 1) / 2 powi (- 52)) = 2 ^ 52"
      by (simp only: round_half_even_half) simp
    then have y: "(1::real) = of_int (round_half_even ((u + 1) / 2 powi (- 52))) * 2 powi (- 52)"
      by (simp add: power_int_minus)
    have "rnd (u + 1) = (if 2 ^ 1024 \<le> \<bar>1::real\<bar> then (if 0 < u + 1 then PInf else NInf) else F 1)"
      using u0 by (intro rnd_eq[of "- 52"] y) (simp_all add: u_def power_int_minus)
    then show ?thesis by simp
  qed
  have delta: "fsub (F b) (F 1) = F (2 * u)"
    by (simp add: fsub_def b_def r2u)
  have s0: "sample64 (F 1) (F (2 * u)) (F 2) (F 0) = F 1"
    using u0 by (simp add: sample64_def ru rnd_0 r1)
  have s1: "sample64 (F 1) (F (2 * u)) (F 2) (F 1) = F 1"
    using u0 by (simp add: sample64_def ru tie)
  have "linspace64 1 b 3 = Inr [F 1, F 1, F b]"
    unfolding linspace64_unfold[of 3 1 b, simplified]
    by (simp add: r1 rb r2 delta upt_rec rnd_0 s0 s1 numeral_2_eq_2)
  then show ?thesis by (simp only: b)
qed

lemma list_update_last6: "[x0, x1, x2, x3, x4, x5][nat 6 - 1 := v] = [x0, x1, x2, x3, x4, v]"
  by (simp add: eval_nat_numeral)

lemma linspace64_subnormal:
  "linspace64 0 (3 / 2 ^ 1074) 6 =
     Inr [F 0, F (1 / 2 ^ 1074), F (2 / 2 ^ 1074), F (3 / 2 ^ 1074), F (4 / 2 ^ 1074),
          F (3 / 2 ^ 1074)]"
proof -
  define q :: real where "q = 1 / 2 ^ 1074"
  have q0: "q \<noteq> 0" "0 < q" by (simp_all add: q_def)
  have rq: "rnd (real_of_int m * q) = F (real_of_int m * q)" if "\<bar>m\<bar> < 2 ^ 53" for m
    using that by (intro rnd_exact[of _ m "- 1074"]) (simp_all add: q_def power_int_minus field_simps)
  have r1: "rnd q = F q" using rq[of 1] by simp
  have r2: "rnd (2 * q) = F (2 * q)" using rq[of 2] by simp
  have r3: "rnd (3 * q) = F (3 * q)" using rq[of 3] by simp
  have r4: "rnd (4 * q) = F (4 * q)" using rq[of 4] by simp
  have r5: "rnd 5 = F 5" using rnd_int[of 5] by simp
  have ints: "rnd 1 = F 1" "rnd 2 = F 2" "rnd 3 = F 3" "rnd 4 = F 4"
    using rnd_int[of 1] rnd_int[of 2] rnd_int[of 3] rnd_int[of 4] by simp_all
  have step: "rnd (3 * q / 5) = F q"
  proof -
    have "3 * q / 5 / 2 powi (- 1074) = 3 / 5" by (simp add: q_def power_int_minus field_simps)
    moreover have "round_half_even (3 / 5) = 1"
      by (rule round_half_even_up) simp_all
    ultimately have y: "q = of_int (round_half_even (3 * q / 5 / 2 powi (- 1074))) * 2 powi (- 1074)"
      by (simp add: q_def power_int_minus field_simps)
    have lt: "\<bar>3 * q / 5\<bar> < 2 powi (- 1074 + 53)"
    proof -
      have "\<bar>3 * q / 5\<bar> \<le> q" using q0 by simp
      also have "q = 2 powi (- 1074)" by (simp add: q_def power_int_minus field_simps)
      also have "\<dots> < 2 powi (- 1074 + 53)" by (intro power_int_strict_increasing) simp_all
      finally show ?thesis .
    qed
    have "rnd (3 * q / 5) =
        (if 2 ^ 1024 \<le> \<bar>q\<bar> then (if 0 < 3 * q / 5 then PInf else NInf) else F q)"
      using lt by (intro rnd_eq[of "- 1074"] y) simp_all
    moreover have "\<bar>q\<bar> < 2 ^ 1024"
    proof -
      have "\<bar>q\<bar> \<le> 1" by (simp add: q_def)
      also have "(1::real) < 2 ^ 1024" by simp
      finally show ?thesis .
    qed
    ultimately show ?thesis by simp
  qed
  have "linspace64 0 (3 * q) 6 = Inr [F 0, F q, F (2 * q), F (3 * q), F (4 * q), F (3 * q)]"
    unfolding linspace64_unfold[of 6 0 "3 * q", simplified]
    using q0
    by (simp add: rnd_0 r1 r2 r3 r4 r5 ints step fsub_def sample64_def upt_rec eval_nat_numeral)
  then show ?thesis by (simp add: q_def)
qed

lemma linspace64_overflow:
  "linspace64 (- (2 ^ 1023)) (2 ^ 1023) 3 = Inr [NaN, PInf, F (2 ^ 1023)]"
proof -
  define B :: real where "B = 2 ^ 1023"
  have B0: "0 < B" by (simp add: B_def)
  have B: "B = real_of_int (2 ^ 52) * 2 powi 971" by (simp add: B_def flip: power_add)
  have rB: "rnd B = F B" by (rule rnd_exact[of _ "2 ^ 52" 971]) (simp_all add: B)
  have rmB: "rnd (- B) = F (- B)" by (rule rnd_exact[of _ "- (2 ^ 52)" 971]) (simp_all add: B)
  have ints: "rnd 1 = F 1" "rnd 2 = F 2" using rnd_int[of 1] rnd_int[of 2] by simp_all
  have over: "rnd (2 * B) = PInf"
  proof -
    have "2 * B / 2 powi 971 = real_of_int (2 ^ 53)" by (simp add: B_def flip: power_add)
    then have "round_half_even (2 * B / 2 powi 971) = 2 ^ 53"
      by (simp only: round_half_even_of_int)
    then have y: "(2::real) ^ 1024 = of_int (round_half_even (2 * B / 2 powi 971)) * 2 powi 971"
      by (simp flip: power_add)
    have ge: "2 powi (971 + 52) \<le> \<bar>2 * B\<bar>" using B0 by (simp add: B_def)
    have "rnd (2 * B) =
        (if 2 ^ 1024 \<le> \<bar>(2::real) ^ 1024\<bar> then (if 0 < 2 * B then PInf else NInf) else F (2 ^ 1024))"
      using ge by (intro rnd_eq[of 971] y) simp_all
    then show ?thesis using B0 by simp
  qed
  have "linspace64 (- B) B 3 = Inr [NaN, PInf, F B]"
    unfolding linspace64_unfold[of 3 "- B" B, simplified]
    by (simp add: rnd_0 rB rmB ints over fsub_def sample64_def inf_of_sign_def upt_rec
        numeral_2_eq_2)
  then show ?thesis by (simp only: B_def)
qed

lemma get_sk_contour_axes_pair:
  "get_sk_contour_axes [a, b] r = and_then (linspace64 a b r) (\<lambda>xs. Inr (xs, xs))"
  by (cases "linspace64 a b r") (simp_all add: get_sk_contour_axes_def getitem_def)

lemma not_increasing_equal: "\<not> sorted_wrt f64_less (F x # F x # zs)"
  by simp

lemma not_nondecreasing_drop:
  assumes "y < x"
  shows "\<not> sorted_wrt f64_le [x0, x1, x2, x3, F x, F y]"
  using assms by (simp add: f64_le_def)

lemma not_nondecreasing_nan: "\<not> sorted_wrt f64_le (NaN # z # zs)"
  by (auto simp: f64_le_def)

section \<open>The boundary visualizer\<close>

text \<open>
  For a domain given as a two-element list, \<^verbatim>\<open>get_sk_contour\<close> is the sampling of the
  axis, one call of the decision function on the flat grid, and the reshape.
\<close>

lemma get_sk_contour_pair:
  "get_sk_contour model [a, b] r =
     and_then (linspace a b r) (\<lambda>xs.
     and_then (decision_function model (mesh_points xs xs)) (\<lambda>z_flat.
     and_then (reshape z_flat (length xs, length xs)) (\<lambda>z_grid.
     Inr (z_grid, xs, xs, mesh_points xs xs))))"
  by (cases "linspace a b r")
    (simp_all add: get_sk_contour_def getitem_def meshgrid_def flatten_def stack_last_def
      mesh_points_def length_concat_replicate length_concat_map_replicate)

lemma get_sk_contour_returns:
  assumes r: "1 \<le> r"
    and scores: "\<And>X. X \<noteq> [] \<Longrightarrow>
                   \<exists>zs. decision_function model X = Inr zs \<and> length zs = length X"
  shows "\<exists>z xs g. get_sk_contour model [a, b] r = Inr (z, xs, xs, g)"
proof -
  obtain xs where lin: "linspace a b r = Inr xs" and len: "length xs = nat r"
    using linspace_nonneg[of r a b] r by auto
  have "length (mesh_points xs xs) = nat r * nat r" by (simp add: length_mesh_points len)
  moreover have "0 < nat r" using r by simp
  ultimately have "mesh_points xs xs \<noteq> []" by auto
  then obtain zs where "decision_function model (mesh_points xs xs) = Inr zs"
    "length zs = length (mesh_points xs xs)" using scores by blast
  then show ?thesis
    by (simp add: get_sk_contour_pair lin reshape_def length_mesh_points)
qed

text \<open>
  C1. Let the fitted model score every non-empty batch row by row with \<open>score\<close>. For every
  domain \<open>[a, b]\<close> and resolution \<open>r \<ge> 2\<close>, \<^verbatim>\<open>get_sk_contour\<close> returns a score surface
  of shape \<open>r \<times> r\<close>. The flat grid iterates \<open>y\<close> outer and \<open>x\<close> inner: its point
  number \<open>j * r + i\<close> is \<open>(x\<^sub>i, y\<^sub>j)\<close>, and the surface's value in row \<open>j\<close> and column
  \<open>i\<close> is the score of \<open>(x\<^sub>i, y\<^sub>j)\<close>.
\<close>

theorem get_sk_contour_surface:
  assumes r: "2 \<le> r"
    and score: "\<And>X. X \<noteq> [] \<Longrightarrow> decision_function model X = Inr (map score X)"
  shows "\<exists>z_grid x_coords y_coords grid.
           get_sk_contour model [a, b] r = Inr (z_grid, x_coords, y_coords, grid) \<and>
           shape z_grid = (nat r, nat r) \<and>
           length x_coords = nat r \<and> length y_coords = nat r \<and>
           (\<forall>i<nat r. \<forall>j<nat r.
              grid ! (j * nat r + i) = (x_coords ! i, y_coords ! j) \<and>
              item2 z_grid j i = Inr (score (x_coords ! i, y_coords ! j)))"
proof -
  define n where "n = nat r"
  define xs where "xs = samples a b n"
  define grid where "grid = mesh_points xs xs"
  define z where "z = \<lparr>shape = (n, n), flat = map score grid\<rparr>"
  have n2: "2 \<le> n" using r by (simp add: n_def)
  have len_xs: "length xs = n" by (simp add: xs_def length_samples)
  have len_grid: "length grid = n * n" by (simp add: grid_def length_mesh_points len_xs)
  have "grid \<noteq> []" using len_grid n2 by auto
  then have df: "decision_function model grid = Inr (map score grid)" by (rule score)
  have lin: "linspace a b r = Inr xs" using linspace_closed[OF r] by (simp add: xs_def n_def)
  have res: "get_sk_contour model [a, b] r = Inr (z, xs, xs, grid)"
    by (simp add: get_sk_contour_pair lin grid_def[symmetric] df reshape_def len_grid len_xs z_def)
  have cell: "grid ! (j * n + i) = (xs ! i, xs ! j) \<and> item2 z j i = Inr (score (xs ! i, xs ! j))"
    if "i < n" "j < n" for i j
  proof -
    have k: "j * n + i < n * n" using that by (intro flat_index_less)
    have g: "grid ! (j * n + i) = (xs ! i, xs ! j)"
      using nth_mesh_points[of j xs i xs] that by (simp add: grid_def len_xs)
    have "item2 z j i = Inr (map score grid ! (j * n + i))"
      using that k by (simp add: item2_def z_def getitem_def len_grid)
    also have "\<dots> = Inr (score (xs ! i, xs ! j))"
      using k g by (simp add: len_grid)
    finally show ?thesis using g by simp
  qed
  show ?thesis
    using res cell len_xs by (auto simp: z_def n_def[symmetric])
qed

theorem get_sk_contour_surface_witness:
  "\<exists>z_grid x_coords y_coords grid.
     get_sk_contour example_model [0, 2] 3 = Inr (z_grid, x_coords, y_coords, grid) \<and>
     shape z_grid = (3, 3) \<and>
     item2 z_grid 2 1 = Inr (x_coords ! 1 + 10 * y_coords ! 2)"
proof -
  have "\<And>X. X \<noteq> [] \<Longrightarrow>
      decision_function example_model X = Inr (map (\<lambda>p. fst p + 10 * snd p) X)"
    by (simp add: example_model_def)
  from get_sk_contour_surface[of 3 example_model "\<lambda>p. fst p + 10 * snd p" 0 2, OF _ this]
  obtain z xs ys g where
    res: "get_sk_contour example_model [0, 2] 3 = Inr (z, xs, ys, g)" and
    sh: "shape z = (nat 3, nat 3)" and
    cells: "\<forall>i<nat 3. \<forall>j<nat 3. g ! (j * nat 3 + i) = (xs ! i, ys ! j) \<and>
              item2 z j i = Inr (fst (xs ! i, ys ! j) + 10 * snd (xs ! i, ys ! j))"
    by auto
  from cells have "item2 z 2 1 = Inr (xs ! 1 + 10 * ys ! 2)" by simp
  with res sh show ?thesis by auto
qed




text \<open>
  C6. With resolution 3 and domain \<open>[0, 2]\<close>, the x-coordinates and the y-coordinates are
  \<open>[0, 1, 2]\<close>, and the flat grid has exactly 9 points, all different, which are the
  Cartesian product of the coordinates.
\<close>

theorem get_sk_contour_3:
  assumes scores: "\<And>X. X \<noteq> [] \<Longrightarrow>
                     \<exists>zs. decision_function model X = Inr zs \<and> length zs = length X"
  shows "\<exists>z_grid grid.
           get_sk_contour model [0, 2] 3 = Inr (z_grid, [0, 1, 2], [0, 1, 2], grid) \<and>
           grid = [(0, 0), (1, 0), (2, 0), (0, 1), (1, 1), (2, 1), (0, 2), (1, 2), (2, 2)] \<and>
           length grid = 9 \<and> distinct grid \<and>
           set grid = set [0, 1, 2] \<times> set [0, 1, 2]"
proof -
  define grid :: "point list" where
    "grid = [(0, 0), (1, 0), (2, 0), (0, 1), (1, 1), (2, 1), (0, 2), (1, 2), (2, 2)]"
  have mesh: "mesh_points [0, 1, 2] [0, 1, 2] = grid"
    by (simp add: mesh_points_3 grid_def)
  have "grid \<noteq> []" by (simp add: grid_def)
  then obtain zs where df: "decision_function model grid = Inr zs" and lz: "length zs = 9"
    using scores[of grid] by (auto simp: grid_def)
  have res: "get_sk_contour model [0, 2] 3 =
      Inr (\<lparr>shape = (3, 3), flat = zs\<rparr>, [0, 1, 2], [0, 1, 2], grid)"
    by (simp add: get_sk_contour_pair linspace_0_2_3 mesh df reshape_def lz)
  have cover: "set grid = set [0, 1, 2] \<times> set [0, 1, 2]"
    using set_mesh_points[of "[0, 1, 2]" "[0, 1, 2]"] by (simp only: mesh)
  have "distinct grid" and "length grid = 9" by (simp_all add: grid_def)
  with res cover show ?thesis by (simp add: grid_def[symmetric])
qed

theorem get_sk_contour_3_witness:
  "\<exists>z_grid.
     get_sk_contour example_model [0, 2] 3 =
       Inr (z_grid, [0, 1, 2], [0, 1, 2],
            [(0, 0), (1, 0), (2, 0), (0, 1), (1, 1), (2, 1), (0, 2), (1, 2), (2, 2)])"
  using get_sk_contour_3[of example_model] by (auto simp: example_model_def)

text \<open>
  C8. Whatever \<^verbatim>\<open>get_sk_contour\<close> returns for a domain pair \<open>[a, b]\<close> and a resolution \<open>r\<close> is a
  square region built from that pair: each of the two coordinate sequences is the
  \<^verbatim>\<open>linspace\<close> of the same \<open>(a, b, r)\<close>, so they are equal, have \<open>r\<close> elements and, for
  \<open>r \<ge> 2\<close>, end with \<open>b\<close>; the flat grid has as many points as the product of their lengths
  and covers their Cartesian product; the score surface has that shape and that many
  values. It does return, with \<open>r\<close> coordinates and \<open>r * r\<close> grid points, for every
  resolution \<open>r \<ge> 1\<close> and every model that returns one score for each row of a non-empty
  batch.
\<close>

theorem get_sk_contour_square:
  "(get_sk_contour model [a, b] r = Inr (z_grid, x_coords, y_coords, grid) \<longrightarrow>
      linspace a b r = Inr x_coords \<and> linspace a b r = Inr y_coords \<and>
      x_coords = y_coords \<and>
      length x_coords = nat r \<and> length y_coords = nat r \<and>
      (2 \<le> r \<longrightarrow> last x_coords = b \<and> last y_coords = b) \<and>
      length grid = length x_coords * length y_coords \<and>
      set grid = set x_coords \<times> set y_coords \<and>
      shape z_grid = (length y_coords, length x_coords) \<and>
      length (flat z_grid) = length grid) \<and>
   (1 \<le> r \<and> (\<forall>X. X \<noteq> [] \<longrightarrow>
        (\<exists>zs. decision_function model X = Inr zs \<and> length zs = length X)) \<longrightarrow>
      (\<exists>z xs g. get_sk_contour model [a, b] r = Inr (z, xs, xs, g) \<and>
         linspace a b r = Inr xs \<and> length xs = nat r \<and> length g = nat r * nat r))"
proof (intro conjI impI)
  assume res: "get_sk_contour model [a, b] r = Inr (z_grid, x_coords, y_coords, grid)"
  then obtain xs where lin: "linspace a b r = Inr xs"
    by (cases "linspace a b r") (simp_all add: get_sk_contour_pair)
  from res lin obtain zs where df: "decision_function model (mesh_points xs xs) = Inr zs"
    by (cases "decision_function model (mesh_points xs xs)") (simp_all add: get_sk_contour_pair)
  from res lin df have lz: "length zs = length xs * length xs"
    and out: "z_grid = \<lparr>shape = (length xs, length xs), flat = zs\<rparr>" "x_coords = xs"
      "y_coords = xs" "grid = mesh_points xs xs"
    by (auto simp: get_sk_contour_pair reshape_def split: if_splits)
  show "linspace a b r = Inr x_coords" "linspace a b r = Inr y_coords"
    using lin out by simp_all
  show "x_coords = y_coords" using out by simp
  show "length x_coords = nat r" "length y_coords = nat r"
    using linspace_length[OF lin] out by simp_all
  show "length grid = length x_coords * length y_coords"
    "shape z_grid = (length y_coords, length x_coords)" "length (flat z_grid) = length grid"
    using lz out by (simp_all add: length_mesh_points)
  show "set grid = set x_coords \<times> set y_coords"
    using out by (simp add: set_mesh_points)
  show "last x_coords = b" "last y_coords = b" if "2 \<le> r"
    using linspace_last[OF that lin] out by simp_all
next
  assume h: "1 \<le> r \<and> (\<forall>X. X \<noteq> [] \<longrightarrow>
        (\<exists>zs. decision_function model X = Inr zs \<and> length zs = length X))"
  then obtain z xs g where res: "get_sk_contour model [a, b] r = Inr (z, xs, xs, g)"
    using get_sk_contour_returns[of r model a b] by blast
  then obtain ys where lin: "linspace a b r = Inr ys"
    by (cases "linspace a b r") (simp_all add: get_sk_contour_pair)
  from res lin have eq: "xs = ys" "g = mesh_points ys ys"
    by (auto simp: get_sk_contour_pair and_then_def split: sum.splits)
  have "length ys = nat r" by (rule linspace_length[OF lin])
  then show "\<exists>z xs g. get_sk_contour model [a, b] r = Inr (z, xs, xs, g) \<and>
         linspace a b r = Inr xs \<and> length xs = nat r \<and> length g = nat r * nat r"
    using res lin eq by (auto simp: length_mesh_points)
qed

theorem get_sk_contour_square_witness:
  "\<exists>z xs g. get_sk_contour example_model [-3, 3] 300 = Inr (z, xs, xs, g) \<and>
     linspace (-3) 3 300 = Inr xs \<and> length xs = 300 \<and> last xs = 3 \<and>
     length g = 90000 \<and> set g = set xs \<times> set xs \<and>
     shape z = (300, 300) \<and> length (flat z) = 90000"
proof -
  have "\<exists>z xs g. get_sk_contour example_model [-3, 3] 300 = Inr (z, xs, xs, g)"
    using get_sk_contour_square[where model = example_model and a = "-3" and b = 3 and r = 300,
        THEN conjunct2]
    by (auto simp: example_model_def)
  then obtain z xs g where res: "get_sk_contour example_model [-3, 3] 300 = Inr (z, xs, xs, g)"
    by blast
  from get_sk_contour_square[where model = example_model and a = "-3" and b = 3 and r = 300
      and z_grid = z and x_coords = xs and y_coords = xs and grid = g] res
  have "linspace (-3) 3 300 = Inr xs" "length xs = 300" "last xs = 3"
    "length g = length xs * length xs" "set g = set xs \<times> set xs"
    "shape z = (length xs, length xs)" "length (flat z) = length g"
    by simp_all
  with res show ?thesis by auto
qed

section \<open>The model factory\<close>

text \<open>
  C2. The identifiers the factory recognises are \<^verbatim>\<open>if\<close> and \<^verbatim>\<open>ocsvm\<close>: for \<^verbatim>\<open>if\<close> it returns an
  Isolation Forest with contamination exactly 0.05, for \<^verbatim>\<open>ocsvm\<close> a One-Class SVM with
  \<open>nu = 0.05\<close>, the kernel \<^verbatim>\<open>rbf\<close> and the bandwidth setting \<^verbatim>\<open>gamma='scale'\<close>.
\<close>

theorem get_sk_model_recognised:
  "get_sk_model ''if'' = Inr (IsolationForest 0.05) \<and>
   get_sk_model ''ocsvm'' = Inr (OneClassSVM 0.05 ''rbf'' ''scale'')"
  by (simp add: get_sk_model_def)

text \<open>
  The identifiers \<^verbatim>\<open>isolation-forest\<close> and \<^verbatim>\<open>one-class-svm\<close> are not recognised: for them the
  factory binds no model and its \<^verbatim>\<open>return sk_model\<close> raises.
\<close>

theorem get_sk_model_long_names:
  "get_sk_model ''isolation-forest'' = Inl UnboundLocalError \<and>
   get_sk_model ''one-class-svm'' = Inl UnboundLocalError"
  by (simp add: get_sk_model_def)

text \<open>
  C5. For every identifier other than \<^verbatim>\<open>if\<close> and \<^verbatim>\<open>ocsvm\<close> the factory falls through both
  branches: no model is constructed, and \<^verbatim>\<open>return sk_model\<close> raises UnboundLocalError
  instead of returning a result.
\<close>

theorem get_sk_model_unrecognised:
  "sk_model_name \<noteq> ''if'' \<Longrightarrow> sk_model_name \<noteq> ''ocsvm'' \<Longrightarrow>
   get_sk_model sk_model_name = Inl UnboundLocalError"
  by (simp add: get_sk_model_def)

theorem get_sk_model_unrecognised_witness:
  "get_sk_model ''bogus'' = Inl UnboundLocalError"
  using get_sk_model_unrecognised[of "''bogus''"] by simp

section \<open>The training entry point\<close>

text \<open>
  C9. The two successive definitions of \<^verbatim>\<open>train_plot_sk_model\<close> are the same function:
  for every surrounding and every argument they give the same result and the same
  figure. The name bound after both cells is the function of the first cell as well, so
  keeping only one definition changes nothing.
\<close>

theorem train_plot_sk_model_duplicate:
  "train_plot_sk_model_cell3 = train_plot_sk_model_cell4 \<and>
   train_plot_sk_model = train_plot_sk_model_cell3"
  by (simp add: train_plot_sk_model_def train_plot_sk_model_cell3_def
      train_plot_sk_model_cell4_def fun_eq_iff)

text \<open>
  C10. \<^verbatim>\<open>train_plot_sk_model\<close> does not depend on its parameter \<^verbatim>\<open>ds_name\<close>: with the
  surrounding and the other arguments fixed, any two values of \<^verbatim>\<open>ds_name\<close> give the same
  result, for either definition.
\<close>

theorem train_plot_sk_model_ignores_ds_name:
  "train_plot_sk_model env fig col ds_name sk_model_name domain_arg =
     train_plot_sk_model env fig col ds_name' sk_model_name domain_arg \<and>
   train_plot_sk_model_cell3 env fig col ds_name sk_model_name domain_arg =
     train_plot_sk_model_cell3 env fig col ds_name' sk_model_name domain_arg"
  by (simp add: train_plot_sk_model_def train_plot_sk_model_cell3_def
      train_plot_sk_model_cell4_def)

text \<open>
  The dataset is chosen by \<^verbatim>\<open>config.dataset_name\<close>: in the sample surrounding, whose loader
  knows \<^verbatim>\<open>moons\<close> only, the call fails when the configuration names another dataset
  although \<^verbatim>\<open>ds_name\<close> is \<^verbatim>\<open>moons\<close>, and succeeds when the configuration names \<^verbatim>\<open>moons\<close>
  although \<^verbatim>\<open>ds_name\<close> is another name.
\<close>

lemma train_plot_sk_model_config_unknown:
  "train_plot_sk_model example_env [] 1 ''moons'' ''ocsvm'' (Some [-3, 3]) =
     Inl (Raised ''KeyError'')"
  by (simp add: train_plot_sk_model_def train_plot_sk_model_cell4_def example_env_def)

lemma train_plot_sk_model_config_known:
  "\<exists>fig. train_plot_sk_model
            (example_env\<lparr>config := (config example_env)\<lparr>dataset_name := ''moons''\<rparr>\<rparr>)
            [] 1 ''circles'' ''ocsvm'' (Some [-3, 3]) = Inr fig"
proof -
  have "\<exists>z xs g. get_sk_contour (example_model\<lparr>hyper := OneClassSVM 0.05 ''rbf'' ''scale''\<rparr>)
      [-3, 3] 300 = Inr (z, xs, xs, g)"
    using get_sk_contour_returns[of 300 "example_model\<lparr>hyper := OneClassSVM 0.05 ''rbf'' ''scale''\<rparr>"
        "-3" 3]
    by (simp add: example_model_def)
  then show ?thesis
    by (auto simp: train_plot_sk_model_def train_plot_sk_model_cell4_def example_env_def
        get_sk_model_def plot_sk_contour_def)
qed

section \<open>The experiment driver\<close>

text \<open>
  Without \<^verbatim>\<open>errexit\<close> a command's exit status changes nothing but \<^verbatim>\<open>$?\<close>; the two loops
  issue their commands whatever the statuses are.
\<close>

lemma run_continue:
  "\<not> errexit s \<Longrightarrow> \<not> exited s \<Longrightarrow>
   run world cmd s = s\<lparr>issued := issued s @ [cmd], status := world (length (issued s)) cmd\<rparr>"
  by (simp add: run_def Let_def)

lemma inner_loop:
  assumes "\<not> errexit s" "\<not> exited s"
  shows "issued (fold (\<lambda>i s. let s = run world (e i) s in run world p s) ws s) =
           issued s @ concat (map (\<lambda>i. [e i, p]) ws) \<and>
         \<not> errexit (fold (\<lambda>i s. let s = run world (e i) s in run world p s) ws s) \<and>
         \<not> exited (fold (\<lambda>i s. let s = run world (e i) s in run world p s) ws s)"
  using assms
proof (induction ws arbitrary: s)
  case Nil
  then show ?case by simp
next
  case (Cons w ws)
  define s1 where "s1 = run world p (run world (e w) s)"
  have s1: "issued s1 = issued s @ [e w, p]" "\<not> errexit s1" "\<not> exited s1"
    using Cons.prems by (simp_all add: s1_def run_continue)
  from Cons.IH[OF s1(2,3)] s1(1) show ?case
    by (simp add: s1_def Let_def)
qed

lemma outer_loop:
  assumes "\<not> errexit s" "\<not> exited s"
  shows "issued (fold (\<lambda>c s. let s = run world (a c) s
                              in fold (\<lambda>i s. let s = run world (e c i) s in run world (p c) s) ws s)
                   cs s) =
           issued s @ concat (map (\<lambda>c. a c # concat (map (\<lambda>i. [e c i, p c]) ws)) cs) \<and>
         \<not> exited (fold (\<lambda>c s. let s = run world (a c) s
                              in fold (\<lambda>i s. let s = run world (e c i) s in run world (p c) s) ws s)
                   cs s)"
  using assms
proof (induction cs arbitrary: s)
  case Nil
  then show ?case by simp
next
  case (Cons c cs)
  define s1 where "s1 = run world (a c) s"
  define s2 where "s2 = fold (\<lambda>i s. let s = run world (e c i) s in run world (p c) s) ws s1"
  have s1: "issued s1 = issued s @ [a c]" "\<not> errexit s1" "\<not> exited s1"
    using Cons.prems by (simp_all add: s1_def run_continue)
  have s2: "issued s2 = issued s @ a c # concat (map (\<lambda>i. [e c i, p c]) ws)"
      "\<not> errexit s2" "\<not> exited s2"
    using inner_loop[OF s1(2,3), of world "e c" "p c" ws] s1(1) by (simp_all add: s2_def)
  from Cons.IH[OF s2(2,3)] s2(1) show ?case
    by (simp add: s1_def s2_def Let_def)
qed

lemma issued_run_mnist:
  "issued (run_mnist world script n tag) = transcript script n tag \<and>
   \<not> exited (run_mnist world script n tag)"
proof -
  define s0 where "s0 = run world jupyter_nbconvert bash_start"
  have s0: "issued s0 = [jupyter_nbconvert]" "\<not> errexit s0" "\<not> exited s0"
    by (simp_all add: s0_def run_def bash_start_def Let_def)
  show ?thesis
    using outer_loop[OF s0(2,3), of world echo_class "echo_experiment script tag"
        "python_run_mnist tag" "seq 1 n" classes] s0(1)
    by (simp add: run_mnist_def transcript_def s0_def[symmetric] Let_def)
qed

lemma filter_repeats:
  "filter (\<lambda>cmd. argv cmd = [''python'', ''experiments/run_mnist.py''])
     (concat (map (\<lambda>i. [echo_experiment script tag c i, python_run_mnist tag c]) ws)) =
   map (\<lambda>i. python_run_mnist tag c) ws"
  by (induction ws) (simp_all add: echo_experiment_def python_run_mnist_def)

lemma filter_classes:
  "filter (\<lambda>cmd. argv cmd = [''python'', ''experiments/run_mnist.py''])
     (concat (map (\<lambda>c. echo_class c #
                   concat (map (\<lambda>i. [echo_experiment script tag c i, python_run_mnist tag c]) ws))
              cs)) =
   map (\<lambda>(c, i). python_run_mnist tag c) (concat (map (\<lambda>c. map (\<lambda>i. (c, i)) ws) cs))"
  by (induction cs) (simp_all add: filter_repeats echo_class_def comp_def)

lemma trainings_run_mnist:
  "trainings (run_mnist world script n tag) =
     map (\<lambda>(c, i). python_run_mnist tag c) (loop_pairs n)"
  by (simp add: trainings_def issued_run_mnist transcript_def filter_classes loop_pairs_def
      jupyter_nbconvert_def)

lemma seq_1_2: "seq 1 2 = [''1'', ''2'']"
  by code_simp

lemma loop_pairs_2:
  "loop_pairs 2 =
     [(''0'', ''1''), (''0'', ''2''), (''1'', ''1''), (''1'', ''2''),
      (''2'', ''1''), (''2'', ''2''), (''3'', ''1''), (''3'', ''2''),
      (''5'', ''1''), (''5'', ''2''), (''6'', ''1''), (''6'', ''2''),
      (''7'', ''1''), (''7'', ''2''), (''9'', ''1''), (''9'', ''2'')]"
  by (simp add: loop_pairs_def seq_1_2 classes_def)

lemma length_loop_pairs: "length (loop_pairs n) = 8 * nat n"
  by (simp add: loop_pairs_def classes_def seq_def)

text \<open>
  C4. With repeat count 2 the driver issues exactly 16 sub-invocations of the training
  script, one for each of the 16 different (class, repeat-index) pairs of its loops, in
  the loops' order. The environment of an invocation reflects the class and the tag
  only: \<^verbatim>\<open>PLOTLY_RENDERER=png\<close>, \<^verbatim>\<open>DATASET_NAME=mnist\<close>, \<^verbatim>\<open>IN_CLASS\<close> the class and
  \<^verbatim>\<open>WANDB_GROUP\<close> the run-group name \<^verbatim>\<open>mnist<class>_<tag>\<close>; the repeat index is in no
  environment variable.
\<close>

theorem run_mnist_repeat_2:
  "map assignments (trainings (run_mnist world script 2 tag)) =
     map (\<lambda>(c, i). [(''PLOTLY_RENDERER'', ''png''), (''DATASET_NAME'', ''mnist''),
                     (''IN_CLASS'', c), (''WANDB_GROUP'', ''mnist'' @ c @ ''_'' @ tag)])
       (loop_pairs 2) \<and>
   length (trainings (run_mnist world script 2 tag)) = 16 \<and>
   distinct (loop_pairs 2) \<and>
   loop_pairs 2 =
     [(''0'', ''1''), (''0'', ''2''), (''1'', ''1''), (''1'', ''2''),
      (''2'', ''1''), (''2'', ''2''), (''3'', ''1''), (''3'', ''2''),
      (''5'', ''1''), (''5'', ''2''), (''6'', ''1''), (''6'', ''2''),
      (''7'', ''1''), (''7'', ''2''), (''9'', ''1''), (''9'', ''2'')]"
proof -
  have "distinct (loop_pairs 2)" by (simp add: loop_pairs_2)
  moreover have "length (trainings (run_mnist world script 2 tag)) = 16"
    by (simp add: trainings_run_mnist length_loop_pairs)
  moreover have "map assignments (trainings (run_mnist world script 2 tag)) =
     map (\<lambda>(c, i). [(''PLOTLY_RENDERER'', ''png''), (''DATASET_NAME'', ''mnist''),
                     (''IN_CLASS'', c), (''WANDB_GROUP'', ''mnist'' @ c @ ''_'' @ tag)])
       (loop_pairs 2)"
    by (simp add: trainings_run_mnist python_run_mnist_def case_prod_beta comp_def)
  ultimately show ?thesis using loop_pairs_2 by simp
qed

text \<open>
  The environments of the 16 sub-invocations are not pairwise different: the two
  repeats of a class set the same variables to the same values.
\<close>

theorem run_mnist_repeats_same_environment:
  "\<not> distinct (map assignments
       (trainings (run_mnist (\<lambda>k cmd. 0) ''./run_mnist.sh'' 2 ''xp1'')))"
  by (simp add: trainings_run_mnist loop_pairs_2 python_run_mnist_def)

text \<open>
  C7. Whatever the exit statuses of the commands are, also when any or all of the
  training sub-invocations fail, the driver issues the same commands in the same order
  as when all succeed, and the shell does not exit before the last one.
\<close>

theorem run_mnist_continues:
  "issued (run_mnist world script n tag) = issued (run_mnist (\<lambda>k cmd. 0) script n tag) \<and>
   issued (run_mnist world script n tag) = transcript script n tag \<and>
   trainings (run_mnist world script n tag) =
     map (\<lambda>(c, i). python_run_mnist tag c) (loop_pairs n) \<and>
   \<not> exited (run_mnist world script n tag)"
  by (simp add: issued_run_mnist trainings_run_mnist)

theorem run_mnist_continues_witness:
  "length (trainings (run_mnist (\<lambda>k cmd. 1) ''./run_mnist.sh'' 2 ''xp1'')) = 16 \<and>
   \<not> exited (run_mnist (\<lambda>k cmd. 1) ''./run_mnist.sh'' 2 ''xp1'')"
  using run_mnist_continues[of "\<lambda>k cmd. 1" "''./run_mnist.sh''" 2 "''xp1''"]
  by (simp add: length_loop_pairs)

text \<open>
  For comparison: had the shell run under \<^verbatim>\<open>errexit\<close>, the first failing command would
  have ended it, and nothing runs in a shell that has exited.
\<close>

lemma run_errexit_stops:
  "run (\<lambda>k cmd. 1) cmd (bash_start\<lparr>errexit := True\<rparr>) =
     \<lparr>issued = [cmd], status = 1, errexit = True, exited = True\<rparr>"
  by (simp add: run_def bash_start_def)

lemma run_exited: "exited s \<Longrightarrow> run world cmd s = s"
  by (simp add: run_def)

end
